theory Spec2Isabelle
  imports Main "HOL-Library.Word" "HOL-Library.AList"
begin

section \<open>Data model\<close>

text \<open>
  Go's \<open>error\<close> values: the package's five sentinels, \<open>sql.ErrNoRows\<close>, and any other
  error (drivers, the file system, \<open>errors.New\<close>) carried by its message.
\<close>

datatype error =
    ErrNoRows
  | InvalidMigrationFile
  | InvalidMigrationPair
  | InvalidMigrationsPath
  | InvalidMigrationType
  | NoActiveMigrations
  | OtherError string

text \<open>\<open>type migrationType string\<close> with its two constants.\<close>

type_synonym migrationType = string

definition upMigration :: migrationType where
  "upMigration = ''up''"

definition downMigration :: migrationType where
  "downMigration = ''down''"

text \<open>Migration statuses (\<open>iota\<close> constants); \<open>Status\<close> is a Go \<open>int\<close> that is only compared.\<close>

definition Inactive :: int where
  "Inactive = 0"

definition Active :: int where
  "Active = 1"

record Migration =
  DownPath :: string
  Id :: "64 word"
  Name :: string
  Status :: int
  UpPath :: string

definition valid :: "Migration \<Rightarrow> bool" where
  "valid m = (if Id m \<noteq> 0 \<and> Name m \<noteq> '''' \<and> UpPath m \<noteq> '''' \<and> DownPath m \<noteq> ''''
              then True else False)"

text \<open>
  The registry \<open>map[uint64]*Migration\<close>. It is an association list read through
  \<^const>\<open>map_of\<close>; a key is held once, so ranging over the map visits
  \<open>remdups (map fst reg)\<close>, in the list's order (Go leaves the order open). Every
  \<open>*Migration\<close> is allocated for one key by the discovery functions, so the key
  stands for the pointer and a write through the pointer is an update at the key.
\<close>

type_synonym registry = "(64 word \<times> Migration) list"

definition range_keys :: "registry \<Rightarrow> 64 word list" where
  "range_keys reg = remdups (map fst reg)"

text \<open>How a function call ends: it returns, the runtime panics, or the process exits.\<close>

datatype panic = IndexOutOfRange int nat

datatype 'a outcome = Returned 'a | Panicked panic | Exited

section \<open>Migrations (ordered query)\<close>

text \<open>
  Modelled from the spec: \<open>uint64slice\<close>, the \<open>sort.Interface\<close> over \<open>[]uint64\<close> that
  is declared outside the given sources; it orders ids ascending as unsigned numbers,
  which is the order of \<open>64 word\<close>.
\<close>

definition sort_uint64slice :: "64 word list \<Rightarrow> 64 word list" where
  "sort_uint64slice ids = sort ids"

text \<open>
  The second loop of \<open>Migrations\<close>. An element of the result is the pointer (the key)
  together with the Migration it points to. An id that is not in the map cannot occur,
  since the ids are the map's own keys; Go would read a nil pointer there.
\<close>

fun select_status :: "registry \<Rightarrow> int \<Rightarrow> 64 word list \<Rightarrow> (64 word \<times> Migration) list" where
  "select_status reg status [] = []"
| "select_status reg status (k # ids) =
     (case map_of reg k of
        None \<Rightarrow> select_status reg status ids
      | Some migration \<Rightarrow>
          (if status = -1 \<or> Status migration = status
           then (k, migration) # select_status reg status ids
           else select_status reg status ids))"

definition Migrations :: "registry \<Rightarrow> int \<Rightarrow> (64 word \<times> Migration) list" where
  "Migrations reg status = select_status reg status (sort_uint64slice (range_keys reg))"

text \<open>Every Status of the registry is one of the two statuses.\<close>

definition two_statuses :: "registry \<Rightarrow> bool" where
  "two_statuses reg = list_all (\<lambda>(k, m). Status m = Inactive \<or> Status m = Active) reg"

text \<open>The registry files every Migration under its own id, as discovery builds it.\<close>

definition keyed_by_id :: "registry \<Rightarrow> bool" where
  "keyed_by_id reg = list_all (\<lambda>(k, m). Id m = k) reg"

text \<open>Whether the second loop of \<open>Migrations\<close> keeps the id \<open>k\<close>.\<close>

definition has_status :: "registry \<Rightarrow> int \<Rightarrow> 64 word \<Rightarrow> bool" where
  "has_status reg status k =
     (case map_of reg k of None \<Rightarrow> False | Some m \<Rightarrow> status = -1 \<or> Status m = status)"

section \<open>Discovery and pairing\<close>

text \<open>
  \<open>parseMigrationPath\<close> is declared outside the given sources; the discovery functions
  take it as the parameter \<open>parse\<close>, which yields the error or the id, the direction
  and the name.
\<close>

type_synonym parser = "string \<Rightarrow> error + (64 word \<times> migrationType \<times> string)"

text \<open>The file system the file variant reads: \<open>filepath.Glob\<close> and \<open>ioutil.ReadFile\<close>.\<close>

record filesystem =
  Glob :: "string \<Rightarrow> string list \<times> error option"
  ReadFile :: "string \<Rightarrow> error + string"

text \<open>
  The \<open>Logger\<close> interface. Its printing methods only write to the log and are left out;
  \<open>Fatalf\<close> decides whether the call comes back: the standard \<open>log.Logger\<close> exits
  the process, another implementation may return.
\<close>

record Logger =
  FatalfExits :: bool

record FileMigrationSource =
  Dir :: string

record AssetMigrationSource =
  Asset :: "string \<Rightarrow> error + string"
  AssetDir :: "string \<Rightarrow> error + string list"
  Dir_asset :: string

text \<open>Indexing a string, with the bounds check of the Go runtime.\<close>

definition index_byte :: "string \<Rightarrow> int \<Rightarrow> char outcome" where
  "index_byte s i =
     (if 0 \<le> i \<and> i < int (length s) then Returned (s ! nat i)
      else Panicked (IndexOutOfRange i (length s)))"

text \<open>\<open>filepath.Base\<close> of the standard library, for the separator \<open>/\<close>.\<close>

definition Base :: "string \<Rightarrow> string" where
  "Base path =
     (if path = '''' then ''.''
      else let stripped = rev (dropWhile (\<lambda>c. c = CHR ''/'') (rev path));
               elem = rev (takeWhile (\<lambda>c. c \<noteq> CHR ''/'') (rev stripped))
           in if elem = '''' then ''/'' else elem)"

text \<open>
  The pairing loop, the same text in both variants but for the name that is parsed:
  the file variant parses \<open>filepath.Base(match)\<close>, the asset variant \<open>match\<close>.
\<close>

fun pair_loop :: "parser \<Rightarrow> (string \<Rightarrow> string) \<Rightarrow> string list \<Rightarrow> registry \<Rightarrow> registry" where
  "pair_loop parse nm [] ms = ms"
| "pair_loop parse nm (match # matches) ms =
     (case parse (nm match) of
        Inl err \<Rightarrow> pair_loop parse nm matches ms
      | Inr (num, mType, name) \<Rightarrow>
          (let (migration, ms1) =
                 (case map_of ms num of
                    None \<Rightarrow>
                      (let fresh = \<lparr>DownPath = '''', Id = num, Name = name,
                                     Status = Inactive, UpPath = ''''\<rparr>
                       in (fresh, AList.update num fresh ms))
                  | Some found \<Rightarrow> (found, ms));
               migration' = (if mType = upMigration then migration\<lparr>UpPath := match\<rparr>
                             else migration\<lparr>DownPath := match\<rparr>)
           in pair_loop parse nm matches (AList.update num migration' ms1)))"

text \<open>The validation loop: the first invalid Migration met ends discovery.\<close>

fun validate_loop :: "registry \<Rightarrow> 64 word list \<Rightarrow> error option" where
  "validate_loop ms [] = None"
| "validate_loop ms (k # ks) =
     (case map_of ms k of
        None \<Rightarrow> validate_loop ms ks
      | Some migration \<Rightarrow>
          (if \<not> valid migration then Some InvalidMigrationPair else validate_loop ms ks))"

text \<open>
  \<open>FileMigrationSource.FindMigrations\<close>. The normalised path is only written to the
  log; the pattern that is globbed is \<open>Dir\<close> followed by \<open>*\<close>. When \<open>Glob\<close> fails the
  logger's \<open>Fatalf\<close> is called, and the loop runs on what \<open>Glob\<close> returned if that
  call comes back.
\<close>

definition FileFindMigrations ::
  "filesystem \<Rightarrow> parser \<Rightarrow> FileMigrationSource \<Rightarrow> Logger \<Rightarrow> (registry \<times> error option) outcome" where
  "FileFindMigrations fs parse f lg =
     (let path = Dir f; pathLength = int (length path) in
      case index_byte path (pathLength - 1) of
        Panicked p \<Rightarrow> Panicked p
      | Exited \<Rightarrow> Exited
      | Returned c \<Rightarrow>
          (let pathGlob = Dir f @ ''*'';
               (matches, err) = Glob fs pathGlob
           in if err \<noteq> None \<and> FatalfExits lg then Exited
              else let ms = pair_loop parse Base matches []
                   in Returned (ms, validate_loop ms (range_keys ms))))"

definition AssetFindMigrations ::
  "parser \<Rightarrow> AssetMigrationSource \<Rightarrow> Logger \<Rightarrow> (registry \<times> error option) outcome" where
  "AssetFindMigrations parse a lg =
     (case AssetDir a (Dir_asset a) of
        Inl err \<Rightarrow> Returned ([], Some err)
      | Inr files \<Rightarrow>
          (let ms = pair_loop parse (\<lambda>match. match) files []
           in Returned (ms, validate_loop ms (range_keys ms))))"

text \<open>
  The \<open>MigrationSource\<close> interface. \<open>FindMigrations\<close> has value receivers, so a
  variant of the package can be held by pointer or by value; any other implementation
  is given by how its \<open>FindMigrations\<close> ends.
\<close>

datatype MigrationSource =
    FileSource FileMigrationSource
  | AssetSource AssetMigrationSource
  | FileSourceValue FileMigrationSource
  | AssetSourceValue AssetMigrationSource
  | OtherSource "(registry \<times> error option) outcome"

definition FindMigrations ::
  "filesystem \<Rightarrow> parser \<Rightarrow> MigrationSource \<Rightarrow> Logger \<Rightarrow> (registry \<times> error option) outcome" where
  "FindMigrations fs parse src lg =
     (case src of
        FileSource f \<Rightarrow> FileFindMigrations fs parse f lg
      | AssetSource a \<Rightarrow> AssetFindMigrations parse a lg
      | FileSourceValue f \<Rightarrow> FileFindMigrations fs parse f lg
      | AssetSourceValue a \<Rightarrow> AssetFindMigrations parse a lg
      | OtherSource r \<Rightarrow> r)"

section \<open>The database and the dialect adapter\<close>

text \<open>
  The database is outside the program: its state is a value of type \<open>'db\<close>, and every
  call of \<open>database/sql\<close> the engine makes is a function from the state before to the
  call's result and the state after, free to fail at any call. \<open>QueryRowScan\<close> is
  \<open>QueryRow(...).Scan(...)\<close>, whose scanned value the engine never reads.
\<close>

datatype sqlarg = StrArg string | IdArg "64 word"

text \<open>A non-nil \<open>sql.Result\<close>, by what its \<open>RowsAffected\<close> returns.\<close>

datatype sqlresult = Rows "64 word" | RowsError error

record 'db sqlDB =
  QueryRowScan :: "string \<Rightarrow> sqlarg list \<Rightarrow> 'db \<Rightarrow> error option \<times> 'db"
  Exec :: "string \<Rightarrow> sqlarg list \<Rightarrow> 'db \<Rightarrow> error option \<times> 'db"
  Begin :: "'db \<Rightarrow> error option \<times> 'db"
  TxExec :: "string \<Rightarrow> sqlarg list \<Rightarrow> 'db \<Rightarrow> (error + sqlresult option) \<times> 'db"
  TxRollback :: "'db \<Rightarrow> error option \<times> 'db"
  TxCommit :: "'db \<Rightarrow> error option \<times> 'db"

text \<open>The \<open>Migratable\<close> interface of the dialect adapter.\<close>

record Migratable =
  SelectMigrationTableSql :: string
  CreateMigrationTableSql :: string
  GetMigrationSql :: string
  MigrationLogInsertSql :: string
  MigrationLogDeleteSql :: string
  GetMigrationCommands :: "string \<Rightarrow> string list"

definition migrationTableName :: string where
  "migrationTableName = ''gomigrate''"

record 'db Migrator =
  DB :: "'db sqlDB"
  dbAdapter :: Migratable
  migrations :: registry
  logger :: Logger
  Source :: MigrationSource

text \<open>A write through the \<open>*Migration\<close> filed under key \<open>k\<close>.\<close>

definition store :: "64 word \<Rightarrow> Migration \<Rightarrow> 'db Migrator \<Rightarrow> 'db Migrator" where
  "store k migration m = m\<lparr>migrations := AList.update k migration (migrations m)\<rparr>"

section \<open>Bootstrap\<close>

definition MigrationTableExists :: "'db Migrator \<Rightarrow> 'db \<Rightarrow> (bool \<times> error option) \<times> 'db" where
  "MigrationTableExists m db =
     (case QueryRowScan (DB m) (SelectMigrationTableSql (dbAdapter m))
             [StrArg migrationTableName] db of
        (Some err, db') \<Rightarrow>
          (if err = ErrNoRows then ((False, None), db') else ((False, Some err), db'))
      | (None, db') \<Rightarrow> ((True, None), db'))"

definition CreateMigrationsTable :: "'db Migrator \<Rightarrow> 'db \<Rightarrow> error option outcome \<times> 'db" where
  "CreateMigrationsTable m db =
     (case Exec (DB m) (CreateMigrationTableSql (dbAdapter m)) [] db of
        (Some err, db') \<Rightarrow>
          (if FatalfExits (logger m) then (Exited, db') else (Returned None, db'))
      | (None, db') \<Rightarrow> (Returned None, db'))"

fun statuses_loop ::
  "'db Migrator \<Rightarrow> 64 word list \<Rightarrow> 'db \<Rightarrow> error option \<times> 'db Migrator \<times> 'db" where
  "statuses_loop m [] db = (None, m, db)"
| "statuses_loop m (k # ks) db =
     (case map_of (migrations m) k of
        None \<Rightarrow> statuses_loop m ks db
      | Some migration \<Rightarrow>
          (case QueryRowScan (DB m) (GetMigrationSql (dbAdapter m)) [IdArg (Id migration)] db of
             (Some err, db') \<Rightarrow>
               (if err = ErrNoRows then statuses_loop m ks db' else (Some err, m, db'))
           | (None, db') \<Rightarrow>
               statuses_loop (store k (migration\<lparr>Status := Active\<rparr>) m) ks db'))"

definition getMigrationStatuses ::
  "'db Migrator \<Rightarrow> 'db \<Rightarrow> error option \<times> 'db Migrator \<times> 'db" where
  "getMigrationStatuses m db = statuses_loop m (range_keys (migrations m)) db"

definition NewMigratorWithLogger ::
  "filesystem \<Rightarrow> parser \<Rightarrow> 'db sqlDB \<Rightarrow> Migratable \<Rightarrow> MigrationSource \<Rightarrow> Logger \<Rightarrow> 'db
     \<Rightarrow> ('db Migrator option \<times> error option) outcome \<times> 'db" where
  "NewMigratorWithLogger fs parse db_handle adapter ms lg db =
     (let migrator = \<lparr>DB = db_handle, dbAdapter = adapter, migrations = [],
                       logger = lg, Source = ms\<rparr>
      in case MigrationTableExists migrator db of
           ((tableExists, Some err), db1) \<Rightarrow> (Returned (None, Some err), db1)
         | ((tableExists, None), db1) \<Rightarrow>
             (case (if \<not> tableExists then CreateMigrationsTable migrator db1
                    else (Returned None, db1)) of
                (Panicked p, db2) \<Rightarrow> (Panicked p, db2)
              | (Exited, db2) \<Rightarrow> (Exited, db2)
              | (Returned (Some err), db2) \<Rightarrow> (Returned (None, Some err), db2)
              | (Returned None, db2) \<Rightarrow>
                  (case FindMigrations fs parse (Source migrator) lg of
                     Panicked p \<Rightarrow> (Panicked p, db2)
                   | Exited \<Rightarrow> (Exited, db2)
                   | Returned (found, Some err) \<Rightarrow> (Returned (None, Some err), db2)
                   | Returned (found, None) \<Rightarrow>
                       (case getMigrationStatuses (migrator\<lparr>migrations := found\<rparr>) db2 of
                          (Some err, m', db3) \<Rightarrow> (Returned (None, Some err), db3)
                        | (None, m', db3) \<Rightarrow> (Returned (Some m', None), db3)))))"

section \<open>Applying one migration\<close>

text \<open>
  The failure branch the source repeats three times: roll the transaction back and
  return the error at hand, or the rollback's own error when the rollback fails.
\<close>

definition rollback_tx :: "'db sqlDB \<Rightarrow> error \<Rightarrow> 'db \<Rightarrow> error option \<times> 'db" where
  "rollback_tx d err db =
     (case TxRollback d db of
        (Some rollbackErr, db') \<Rightarrow> (Some rollbackErr, db')
      | (None, db') \<Rightarrow> (Some err, db'))"

text \<open>The loop over the split commands; \<open>None\<close> when every command went through.\<close>

fun exec_commands :: "'db sqlDB \<Rightarrow> string list \<Rightarrow> 'db \<Rightarrow> error option \<times> 'db" where
  "exec_commands d [] db = (None, db)"
| "exec_commands d (cmd # cmds) db =
     (case TxExec d cmd [] db of
        (Inl err, db') \<Rightarrow> rollback_tx d err db'
      | (Inr None, db') \<Rightarrow> exec_commands d cmds db'
      | (Inr (Some result), db') \<Rightarrow>
          (case result of
             RowsError err \<Rightarrow> rollback_tx d err db'
           | Rows rowsAffected \<Rightarrow> exec_commands d cmds db'))"

text \<open>
  Reading the script, by the type switch on the source, whose cases are the two
  pointer types; everything else is the default case.
\<close>

definition read_script :: "filesystem \<Rightarrow> MigrationSource \<Rightarrow> string \<Rightarrow> error + string" where
  "read_script fs src path =
     (case src of
        FileSource f \<Rightarrow> ReadFile fs path
      | AssetSource a \<Rightarrow> Asset a path
      | _ \<Rightarrow> Inl (OtherError ''Unsupport MigrationSource type''))"

text \<open>
  \<open>ApplyMigration\<close> up to the commit: the error and the state it ends in, or the
  state in which the transaction is ready to be committed.
\<close>

definition run_transaction ::
  "'db Migrator \<Rightarrow> filesystem \<Rightarrow> Migration \<Rightarrow> migrationType \<Rightarrow> string \<Rightarrow> 'db
     \<Rightarrow> error option \<times> 'db" where
  "run_transaction m fs migration mType path db =
     (case read_script fs (Source m) path of
        Inl err \<Rightarrow> (Some err, db)
      | Inr script \<Rightarrow>
          (case Begin (DB m) db of
             (Some err, db1) \<Rightarrow> (Some err, db1)
           | (None, db1) \<Rightarrow>
               (let commands = GetMigrationCommands (dbAdapter m) script in
                case exec_commands (DB m) commands db1 of
                  (Some err, db2) \<Rightarrow> (Some err, db2)
                | (None, db2) \<Rightarrow>
                    (case TxExec (DB m)
                            (if mType = upMigration then MigrationLogInsertSql (dbAdapter m)
                             else MigrationLogDeleteSql (dbAdapter m))
                            [IdArg (Id migration)] db2 of
                       (Inl err, db3) \<Rightarrow> rollback_tx (DB m) err db3
                     | (Inr result, db3) \<Rightarrow> (None, db3)))))"

definition ApplyMigration ::
  "'db Migrator \<Rightarrow> filesystem \<Rightarrow> Migration \<Rightarrow> migrationType \<Rightarrow> 'db
     \<Rightarrow> error option \<times> Migration \<times> 'db" where
  "ApplyMigration m fs migration mType db =
     (if mType \<noteq> upMigration \<and> mType \<noteq> downMigration
      then (Some InvalidMigrationType, migration, db)
      else let path = (if mType = upMigration then UpPath migration else DownPath migration)
           in case run_transaction m fs migration mType path db of
                (Some err, db') \<Rightarrow> (Some err, migration, db')
              | (None, db3) \<Rightarrow>
                  (case TxCommit (DB m) db3 of
                     (Some err, db4) \<Rightarrow> (Some err, migration, db4)
                   | (None, db4) \<Rightarrow>
                       (None,
                        (if mType = upMigration then migration\<lparr>Status := Active\<rparr>
                         else migration\<lparr>Status := Inactive\<rparr>),
                        db4)))"

section \<open>Bulk operations\<close>

text \<open>
  The loops below walk the list that \<open>Migrations\<close> returned before the loop began;
  what \<open>ApplyMigration\<close> leaves in the Migration is written back under its key.
\<close>

fun migrate_loop ::
  "'db Migrator \<Rightarrow> filesystem \<Rightarrow> (64 word \<times> Migration) list \<Rightarrow> 'db
     \<Rightarrow> error option \<times> 'db Migrator \<times> 'db" where
  "migrate_loop m fs [] db = (None, m, db)"
| "migrate_loop m fs ((k, migration) # rest) db =
     (case ApplyMigration m fs migration upMigration db of
        (Some err, migration', db') \<Rightarrow> (Some err, store k migration' m, db')
      | (None, migration', db') \<Rightarrow> migrate_loop (store k migration' m) fs rest db')"

definition Migrate :: "'db Migrator \<Rightarrow> filesystem \<Rightarrow> 'db \<Rightarrow> error option \<times> 'db Migrator \<times> 'db" where
  "Migrate m fs db = migrate_loop m fs (Migrations (migrations m) Inactive) db"

text \<open>
  The loop of \<open>RollbackN\<close>, \<open>for i := len(migrations) - 1; i != last_migration; i--\<close>.
  Go's \<open>int\<close> is taken at 64 bits: \<open>i\<close> and \<open>last_migration\<close> are words, read as
  signed where the slice is indexed, under the bounds check of the Go runtime.
\<close>

function rollback_loop ::
  "'db Migrator \<Rightarrow> filesystem \<Rightarrow> (64 word \<times> Migration) list \<Rightarrow> 64 word \<Rightarrow> 64 word \<Rightarrow> 'db
     \<Rightarrow> error option outcome \<times> 'db Migrator \<times> 'db" where
  "rollback_loop m fs ms last_migration i db =
     (if i = last_migration then (Returned None, m, db)
      else if \<not> (0 \<le> sint i \<and> sint i < int (length ms))
      then (Panicked (IndexOutOfRange (sint i) (length ms)), m, db)
      else (case ApplyMigration m fs (snd (ms ! nat (sint i))) downMigration db of
              (Some err, migration', db') \<Rightarrow>
                (Returned (Some err), store (fst (ms ! nat (sint i))) migration' m, db')
            | (None, migration', db') \<Rightarrow>
                rollback_loop (store (fst (ms ! nat (sint i))) migration' m) fs ms
                  last_migration (i - 1) db'))"
  by pat_completeness auto

termination rollback_loop
proof (relation "measure (\<lambda>(m, fs, ms, last_migration, i, db). nat (sint i + 1))", goal_cases)
  case 1
  show ?case by simp
next
  case (2 m fs ms last_migration i db)
  then have nonneg: "0 \<le> sint i" by simp
  have "sint i < 2 ^ 63" using sint_lt [of i] by simp
  with nonneg have "signed_take_bit 63 (sint i - 1) = sint i - 1"
    by (intro signed_take_bit_int_eq_self) auto
  then have "sint (i - 1) = sint i - 1"
    by (simp add: sint_word_ariths)
  with nonneg show ?case by simp
qed

declare rollback_loop.simps [simp del]

definition RollbackN ::
  "'db Migrator \<Rightarrow> filesystem \<Rightarrow> 64 word \<Rightarrow> 'db \<Rightarrow> error option outcome \<times> 'db Migrator \<times> 'db" where
  "RollbackN m fs n db =
     (let ms = Migrations (migrations m) Active in
      if length ms = 0 then (Returned None, m, db)
      else let last_migration = of_nat (length ms) - 1 - n
           in rollback_loop m fs ms last_migration (of_nat (length ms) - 1) db)"

definition Rollback ::
  "'db Migrator \<Rightarrow> filesystem \<Rightarrow> 'db \<Rightarrow> error option outcome \<times> 'db Migrator \<times> 'db" where
  "Rollback m fs db = RollbackN m fs 1 db"

definition RollbackAll ::
  "'db Migrator \<Rightarrow> filesystem \<Rightarrow> 'db \<Rightarrow> error option outcome \<times> 'db Migrator \<times> 'db" where
  "RollbackAll m fs db =
     (let ms = Migrations (migrations m) Active
      in RollbackN m fs (of_nat (length ms)) db)"

section \<open>A scripted database and sample inputs\<close>

text \<open>
  A database whose state is the list of the calls made so far; the statements named in
  \<open>failing\<close> fail, a lookup named there finds no row.
\<close>

definition scripted_db :: "string list \<Rightarrow> string list sqlDB" where
  "scripted_db failing =
     \<lparr>QueryRowScan = (\<lambda>q args db.
         (if q \<in> set failing then Some ErrNoRows else None, db @ [q])),
      Exec = (\<lambda>q args db.
         (if q \<in> set failing then Some (OtherError q) else None, db @ [q])),
      Begin = (\<lambda>db. (None, db @ [''begin''])),
      TxExec = (\<lambda>q args db.
         (if q \<in> set failing then Inl (OtherError q) else Inr None, db @ [q])),
      TxRollback = (\<lambda>db.
         (if ''rollback'' \<in> set failing then Some (OtherError ''rollback'') else None,
          db @ [''rollback''])),
      TxCommit = (\<lambda>db.
         (if ''commit'' \<in> set failing then Some (OtherError ''commit'') else None,
          db @ [''commit'']))\<rparr>"

definition sample_adapter :: Migratable where
  "sample_adapter =
     \<lparr>SelectMigrationTableSql = ''probe'', CreateMigrationTableSql = ''create'',
      GetMigrationSql = ''get'', MigrationLogInsertSql = ''ins'',
      MigrationLogDeleteSql = ''del'',
      GetMigrationCommands = (\<lambda>script. [script, ''s2''])\<rparr>"

definition sample_fs :: filesystem where
  "sample_fs =
     \<lparr>Glob = (\<lambda>pattern. ([''m/1_a_up.sql'', ''m/1_a_down.sql'', ''m/notes''], None)),
      ReadFile = (\<lambda>path. Inr ''s1'')\<rparr>"

text \<open>A parser for the three sample names: two halves of migration 1, and a stray file.\<close>

definition sample_parse :: parser where
  "sample_parse name =
     (if name = ''1_a_up.sql'' then Inr (1, upMigration, ''a'')
      else if name = ''1_a_down.sql'' then Inr (1, downMigration, ''a'')
      else Inl InvalidMigrationFile)"

definition sample_migration :: "int \<Rightarrow> Migration" where
  "sample_migration status =
     \<lparr>DownPath = ''m/1_a_down.sql'', Id = 1, Name = ''a'', Status = status,
      UpPath = ''m/1_a_up.sql''\<rparr>"

definition sample_migrator :: "string list \<Rightarrow> registry \<Rightarrow> string list Migrator" where
  "sample_migrator failing reg =
     \<lparr>DB = scripted_db failing, dbAdapter = sample_adapter, migrations = reg,
      logger = \<lparr>FatalfExits = True\<rparr>, Source = FileSource \<lparr>Dir = ''m/''\<rparr>\<rparr>"

text \<open>An asset bundle that holds the up half of migration 1 only, beside a stray file.\<close>

definition sample_asset :: AssetMigrationSource where
  "sample_asset =
     \<lparr>Asset = (\<lambda>path. Inr ''s1''),
      AssetDir = (\<lambda>path. Inr [''1_a_up.sql'', ''notes'']),
      Dir_asset = ''m''\<rparr>"

section \<open>Evaluating the sample inputs\<close>

lemmas sample_defs =
  sample_migrator_def sample_migration_def sample_fs_def sample_adapter_def scripted_db_def
  ApplyMigration_def run_transaction_def read_script_def store_def
  upMigration_def downMigration_def Active_def Inactive_def

section \<open>Properties of the ordered query\<close>

lemma select_status_keys:
  "map fst (select_status reg status ids) = filter (has_status reg status) ids"
  by (induction ids) (auto simp: has_status_def split: option.splits)

lemma select_status_set:
  "set (select_status reg status ids) =
     {(k, m). k \<in> set ids \<and> map_of reg k = Some m \<and> (status = -1 \<or> Status m = status)}"
  by (induction ids) (auto split: option.splits)

lemma sort_uint64slice_strict: "sorted_wrt (<) (sort_uint64slice (range_keys reg))"
  by (simp add: sort_uint64slice_def range_keys_def strict_sorted_iff)

lemma Migrations_keys_ascending: "sorted_wrt (<) (map fst (Migrations reg status))"
  unfolding Migrations_def select_status_keys
  by (rule sorted_wrt_filter) (rule sort_uint64slice_strict)

lemma Migrations_set:
  "set (Migrations reg status) =
     {(k, m). map_of reg k = Some m \<and> (status = -1 \<or> Status m = status)}"
proof -
  have "k \<in> set (sort_uint64slice (range_keys reg))" if "map_of reg k = Some m" for k m
    using that by (auto simp: sort_uint64slice_def range_keys_def dest: map_of_SomeD intro: rev_image_eqI)
  then show ?thesis
    unfolding Migrations_def select_status_set by auto
qed

lemma keyed_by_id_lookup: "keyed_by_id reg \<Longrightarrow> map_of reg k = Some m \<Longrightarrow> Id m = k"
  by (auto simp: keyed_by_id_def list_all_iff dest: map_of_SomeD)

lemma Migrations_ids:
  assumes "keyed_by_id reg"
  shows "map (Id \<circ> snd) (Migrations reg status) = map fst (Migrations reg status)"
proof (rule map_cong [OF refl, unfolded o_def, of _ "\<lambda>p. Id (snd p)" fst, folded o_def])
  fix p assume "p \<in> set (Migrations reg status)"
  then show "Id (snd p) = fst p"
    using keyed_by_id_lookup [OF assms, of "fst p" "snd p"] by (auto simp: Migrations_set)
qed

text \<open>
  C6. For every registry and every status argument, the list returned by
  \<open>Migrations(status)\<close> is strictly ascending in the map keys, and holds exactly the
  migrations of the registry whose Status equals the argument; with the argument \<open>-1\<close>
  it holds every migration of the registry. In a registry that files each migration
  under its own id (the id-to-Migration mapping of the data model), the list is
  strictly ascending by migration id.
\<close>

theorem Migrations_sorted_filtered:
  "sorted_wrt (<) (map fst (Migrations reg status))
   \<and> set (Migrations reg status) =
       {(k, m). map_of reg k = Some m \<and> (status = -1 \<or> Status m = status)}
   \<and> set (Migrations reg (-1)) = {(k, m). map_of reg k = Some m}
   \<and> (keyed_by_id reg \<longrightarrow> sorted_wrt (<) (map (Id \<circ> snd) (Migrations reg status)))"
proof (intro conjI impI)
  show "sorted_wrt (<) (map fst (Migrations reg status))"
    by (rule Migrations_keys_ascending)
  show "set (Migrations reg status) =
          {(k, m). map_of reg k = Some m \<and> (status = -1 \<or> Status m = status)}"
    by (rule Migrations_set)
  show "set (Migrations reg (-1)) = {(k, m). map_of reg k = Some m}"
    by (simp add: Migrations_set)
  show "sorted_wrt (<) (map (Id \<circ> snd) (Migrations reg status))" if "keyed_by_id reg"
    by (simp only: Migrations_ids [OF that] Migrations_keys_ascending)
qed

theorem Migrations_sorted_filtered_witness:
  "keyed_by_id [(2, (sample_migration Active)\<lparr>Id := 2\<rparr>), (1, sample_migration Active)]
   \<and> sorted_wrt (<) (map (Id \<circ> snd)
         (Migrations [(2, (sample_migration Active)\<lparr>Id := 2\<rparr>), (1, sample_migration Active)]
            Active))
   \<and> map fst (Migrations [(2, (sample_migration Active)\<lparr>Id := 2\<rparr>), (1, sample_migration Active)]
         Active) = [1, 2]"
proof -
  have h: "keyed_by_id [(2, (sample_migration Active)\<lparr>Id := 2\<rparr>), (1, sample_migration Active)]"
    by (simp add: keyed_by_id_def sample_migration_def)
  have l: "map fst (Migrations [(2, (sample_migration Active)\<lparr>Id := 2\<rparr>), (1, sample_migration Active)]
         Active) = [1, 2]"
    by (simp add: Migrations_def range_keys_def sort_uint64slice_def sample_migration_def
        word_le_def)
  show ?thesis
    using h l Migrations_sorted_filtered
      [of "[(2, (sample_migration Active)\<lparr>Id := 2\<rparr>), (1, sample_migration Active)]" Active]
    by blast
qed

section \<open>Properties of discovery\<close>

lemma validate_loop_result:
  "validate_loop ms ks =
     (if \<forall>k \<in> set ks. \<forall>mg. map_of ms k = Some mg \<longrightarrow> valid mg then None
      else Some InvalidMigrationPair)"
  by (induction ks) (auto split: option.splits)

lemma range_keys_lookup: "map_of ms k = Some mg \<Longrightarrow> k \<in> set (range_keys ms)"
  by (auto simp: range_keys_def dest: map_of_SomeD intro: rev_image_eqI)

lemma validate_registry:
  "validate_loop ms (range_keys ms) =
     (if \<forall>k mg. map_of ms k = Some mg \<longrightarrow> valid mg then None else Some InvalidMigrationPair)"
  unfolding validate_loop_result using range_keys_lookup [of ms] by auto

lemma pair_loop_skips:
  "pair_loop parse nm (filter (\<lambda>match. \<not> isl (parse (nm match))) matches) ms =
   pair_loop parse nm matches ms"
  by (induction matches arbitrary: ms) (auto split: sum.splits simp: Let_def)

lemma keyed_by_id_update:
  "keyed_by_id ms \<Longrightarrow> Id mg = k \<Longrightarrow> keyed_by_id (AList.update k mg ms)"
  by (induction ms) (auto simp: keyed_by_id_def)

lemma pair_loop_keyed:
  "keyed_by_id ms \<Longrightarrow> keyed_by_id (pair_loop parse nm matches ms)"
proof (induction matches arbitrary: ms)
  case Nil
  then show ?case by simp
next
  case (Cons match matches)
  show ?case
  proof (cases "parse (nm match)")
    case (Inl err)
    then show ?thesis using Cons by simp
  next
    case (Inr t)
    obtain num mType name where t: "t = (num, mType, name)"
      by (cases t) auto
    show ?thesis
    proof (cases "map_of ms num")
      case None
      then show ?thesis
        using Inr t Cons.prems
        by (auto simp: Let_def intro!: Cons.IH keyed_by_id_update)
    next
      case (Some found)
      then have "Id found = num"
        using Cons.prems by (rule keyed_by_id_lookup [rotated])
      then show ?thesis
        using Inr t Some Cons.prems
        by (auto simp: Let_def intro!: Cons.IH keyed_by_id_update)
    qed
  qed
qed

text \<open>Both variants build a registry that files every Migration under its own id.\<close>

lemma FindMigrations_keyed:
  "FileFindMigrations fs parse f lg = Returned (ms, e) \<Longrightarrow> keyed_by_id ms"
  "AssetFindMigrations parse a lg = Returned (ms, e) \<Longrightarrow> keyed_by_id ms"
proof -
  have empty: "keyed_by_id []" by (simp add: keyed_by_id_def)
  show "FileFindMigrations fs parse f lg = Returned (ms, e) \<Longrightarrow> keyed_by_id ms"
    using pair_loop_keyed [OF empty, of parse Base]
    by (auto simp: FileFindMigrations_def Let_def split: outcome.splits prod.splits if_splits)
  show "AssetFindMigrations parse a lg = Returned (ms, e) \<Longrightarrow> keyed_by_id ms"
    using pair_loop_keyed [OF empty, of parse "\<lambda>match. match"] empty
    by (auto simp: AssetFindMigrations_def Let_def split: sum.splits)
qed

text \<open>
  C5. For every list of discovered artifacts (\<open>Glob\<close> on a non-empty \<open>Dir\<close>, or
  \<open>AssetDir\<close>, has listed them), \<open>FindMigrations\<close> of the file variant and of the asset
  variant returns, and it returns either no error and a registry in which every
  Migration is valid (id not 0; name, up path and down path non-empty), or the error
  \<open>InvalidMigrationPair\<close>; whenever the file variant returns at all, what it returns is
  one of the two. An artifact whose name does not parse is skipped, the result being
  that of the list without it.
\<close>

theorem FindMigrations_valid_or_pair_error:
  "(Dir f \<noteq> [] \<longrightarrow> Glob fs (Dir f @ ''*'') = (found, None) \<longrightarrow>
      (\<exists>ms0 e0. FileFindMigrations fs parse f lg = Returned (ms0, e0) \<and>
         ((e0 = None \<and> (\<forall>k mg. map_of ms0 k = Some mg \<longrightarrow> valid mg))
          \<or> e0 = Some InvalidMigrationPair)))
   \<and> (FileFindMigrations fs parse f lg = Returned (ms, e) \<longrightarrow>
      (e = None \<and> (\<forall>k mg. map_of ms k = Some mg \<longrightarrow> valid mg)) \<or> e = Some InvalidMigrationPair)
   \<and> (AssetDir a (Dir_asset a) = Inr files \<longrightarrow>
      (\<exists>ms' e'. AssetFindMigrations parse a lg = Returned (ms', e') \<and>
         ((e' = None \<and> (\<forall>k mg. map_of ms' k = Some mg \<longrightarrow> valid mg))
          \<or> e' = Some InvalidMigrationPair)))
   \<and> pair_loop parse nm (filter (\<lambda>match. \<not> isl (parse (nm match))) matches) reg =
       pair_loop parse nm matches reg"
proof (intro conjI impI)
  assume dir: "Dir f \<noteq> []" and glob: "Glob fs (Dir f @ ''*'') = (found, None)"
  define ms0 where "ms0 = pair_loop parse Base found []"
  from dir obtain c where "index_byte (Dir f) (int (length (Dir f)) - 1) = Returned c"
    by (simp add: index_byte_def)
  then have "FileFindMigrations fs parse f lg = Returned (ms0, validate_loop ms0 (range_keys ms0))"
    by (simp add: FileFindMigrations_def glob ms0_def Let_def)
  moreover have "(validate_loop ms0 (range_keys ms0) = None \<and> (\<forall>k mg. map_of ms0 k = Some mg \<longrightarrow> valid mg))
      \<or> validate_loop ms0 (range_keys ms0) = Some InvalidMigrationPair"
    unfolding validate_registry by simp
  ultimately show "\<exists>ms0 e0. FileFindMigrations fs parse f lg = Returned (ms0, e0) \<and>
         ((e0 = None \<and> (\<forall>k mg. map_of ms0 k = Some mg \<longrightarrow> valid mg))
          \<or> e0 = Some InvalidMigrationPair)"
    by blast
next
  assume "FileFindMigrations fs parse f lg = Returned (ms, e)"
  then have "e = validate_loop ms (range_keys ms)"
    by (auto simp: FileFindMigrations_def Let_def split: outcome.splits prod.splits if_splits)
  then show "(e = None \<and> (\<forall>k mg. map_of ms k = Some mg \<longrightarrow> valid mg)) \<or> e = Some InvalidMigrationPair"
    unfolding validate_registry by (simp split: if_splits)
next
  assume files: "AssetDir a (Dir_asset a) = Inr files"
  define ms' where "ms' = pair_loop parse (\<lambda>match. match) files []"
  have "AssetFindMigrations parse a lg = Returned (ms', validate_loop ms' (range_keys ms'))"
    by (simp add: AssetFindMigrations_def files ms'_def Let_def)
  moreover have "(validate_loop ms' (range_keys ms') = None \<and> (\<forall>k mg. map_of ms' k = Some mg \<longrightarrow> valid mg))
      \<or> validate_loop ms' (range_keys ms') = Some InvalidMigrationPair"
    unfolding validate_registry by simp
  ultimately show "\<exists>ms' e'. AssetFindMigrations parse a lg = Returned (ms', e') \<and>
         ((e' = None \<and> (\<forall>k mg. map_of ms' k = Some mg \<longrightarrow> valid mg))
          \<or> e' = Some InvalidMigrationPair)"
    by blast
next
  show "pair_loop parse nm (filter (\<lambda>match. \<not> isl (parse (nm match))) matches) reg =
       pair_loop parse nm matches reg"
    by (rule pair_loop_skips)
qed

theorem FindMigrations_valid_or_pair_error_witness:
  "FileFindMigrations sample_fs sample_parse \<lparr>Dir = ''m/''\<rparr> \<lparr>FatalfExits = True\<rparr> =
     Returned ([(1, sample_migration Inactive)], None)
   \<and> valid (sample_migration Inactive)
   \<and> AssetDir sample_asset (Dir_asset sample_asset) = Inr [''1_a_up.sql'', ''notes'']
   \<and> AssetFindMigrations sample_parse sample_asset \<lparr>FatalfExits = True\<rparr> =
       Returned ([(1, (sample_migration Inactive)\<lparr>DownPath := [], UpPath := ''1_a_up.sql''\<rparr>)],
                 Some InvalidMigrationPair)
   \<and> pair_loop sample_parse Base (filter (\<lambda>match. \<not> isl (sample_parse (Base match)))
         [''m/1_a_up.sql'', ''m/1_a_down.sql'', ''m/notes'']) [] =
       pair_loop sample_parse Base [''m/1_a_up.sql'', ''m/1_a_down.sql'', ''m/notes''] []"
proof -
  have ffile: "FileFindMigrations sample_fs sample_parse \<lparr>Dir = ''m/''\<rparr> \<lparr>FatalfExits = True\<rparr> =
     Returned ([(1, sample_migration Inactive)], None)"
    by (simp add: FileFindMigrations_def index_byte_def sample_fs_def sample_parse_def Base_def
        Let_def range_keys_def valid_def sample_migration_def upMigration_def downMigration_def)
  have dir: "AssetDir sample_asset (Dir_asset sample_asset) = Inr [''1_a_up.sql'', ''notes'']"
    by (simp add: sample_asset_def)
  have asset: "AssetFindMigrations sample_parse sample_asset \<lparr>FatalfExits = True\<rparr> =
       Returned ([(1, (sample_migration Inactive)\<lparr>DownPath := [], UpPath := ''1_a_up.sql''\<rparr>)],
                 Some InvalidMigrationPair)"
    by (simp add: AssetFindMigrations_def sample_asset_def sample_parse_def
        Let_def range_keys_def valid_def sample_migration_def upMigration_def downMigration_def)
  note claim = FindMigrations_valid_or_pair_error
    [where fs = sample_fs and parse = sample_parse and f = "\<lparr>Dir = ''m/''\<rparr>"
       and lg = "\<lparr>FatalfExits = True\<rparr>" and ms = "[(1, sample_migration Inactive)]"
       and e = None and a = sample_asset and files = "[''1_a_up.sql'', ''notes'']"
       and nm = Base and matches = "[''m/1_a_up.sql'', ''m/1_a_down.sql'', ''m/notes'']"
       and reg = "[]" and found = "[''m/1_a_up.sql'', ''m/1_a_down.sql'', ''m/notes'']"]
  from claim have "FileFindMigrations sample_fs sample_parse \<lparr>Dir = ''m/''\<rparr> \<lparr>FatalfExits = True\<rparr> =
      Returned ([(1, sample_migration Inactive)], None) \<longrightarrow>
      (\<forall>k mg. map_of [(1, sample_migration Inactive)] k = Some mg \<longrightarrow> valid mg)"
    by simp
  with ffile have "\<forall>k mg. map_of [(1, sample_migration Inactive)] k = Some mg \<longrightarrow> valid mg"
    by (rule rev_mp)
  then have "map_of [(1, sample_migration Inactive)] 1 = Some (sample_migration Inactive) \<longrightarrow>
      valid (sample_migration Inactive)"
    by (elim allE)
  then have ok: "valid (sample_migration Inactive)"
    by simp
  from claim have skip: "pair_loop sample_parse Base (filter (\<lambda>match. \<not> isl (sample_parse (Base match)))
         [''m/1_a_up.sql'', ''m/1_a_down.sql'', ''m/notes'']) [] =
       pair_loop sample_parse Base [''m/1_a_up.sql'', ''m/1_a_down.sql'', ''m/notes''] []"
    by (elim conjE)
  show ?thesis
    by (intro conjI ffile ok dir asset skip)
qed

text \<open>
  C10. \<open>FileMigrationSource.FindMigrations\<close> indexes the last byte of \<open>Dir\<close> before it
  enumerates anything: with \<open>Dir\<close> empty the index \<open>-1\<close> is out of range and the call
  ends in the runtime's panic, whatever the file system holds; with \<open>Dir\<close> non-empty
  the index is in bounds and the call never panics.
\<close>

theorem FileFindMigrations_needs_Dir:
  "(Dir f = '''' \<longrightarrow> FileFindMigrations fs parse f lg = Panicked (IndexOutOfRange (-1) 0))
   \<and> (Dir f \<noteq> '''' \<longrightarrow>
        index_byte (Dir f) (int (length (Dir f)) - 1) = Returned (last (Dir f))
        \<and> (\<forall>p. FileFindMigrations fs parse f lg \<noteq> Panicked p))"
proof (intro conjI impI allI)
  assume "Dir f = ''''"
  then show "FileFindMigrations fs parse f lg = Panicked (IndexOutOfRange (-1) 0)"
    by (simp add: FileFindMigrations_def index_byte_def)
next
  assume nonempty: "Dir f \<noteq> ''''"
  then have "nat (int (length (Dir f)) - 1) = length (Dir f) - 1"
    by simp
  with nonempty show idx: "index_byte (Dir f) (int (length (Dir f)) - 1) = Returned (last (Dir f))"
    by (simp add: index_byte_def last_conv_nth)
  fix p
  show "FileFindMigrations fs parse f lg \<noteq> Panicked p"
    by (simp add: FileFindMigrations_def Let_def idx split: prod.splits)
qed

theorem FileFindMigrations_needs_Dir_witness:
  "Dir \<lparr>Dir = ''''\<rparr> = ''''
   \<and> FileFindMigrations sample_fs sample_parse \<lparr>Dir = ''''\<rparr> \<lparr>FatalfExits = True\<rparr> =
       Panicked (IndexOutOfRange (-1) 0)
   \<and> Dir \<lparr>Dir = ''m/''\<rparr> \<noteq> ''''
   \<and> index_byte (Dir \<lparr>Dir = ''m/''\<rparr>) (int (length (Dir \<lparr>Dir = ''m/''\<rparr>)) - 1) =
       Returned (last (Dir \<lparr>Dir = ''m/''\<rparr>))
   \<and> FileFindMigrations sample_fs sample_parse \<lparr>Dir = ''m/''\<rparr> \<lparr>FatalfExits = True\<rparr> \<noteq>
       Panicked (IndexOutOfRange (-1) 0)"
proof -
  have empty: "Dir \<lparr>Dir = ''''\<rparr> = ''''" and nonempty: "Dir \<lparr>Dir = ''m/''\<rparr> \<noteq> ''''"
    by simp_all
  show ?thesis
    using empty nonempty
      FileFindMigrations_needs_Dir [where f = "\<lparr>Dir = ''''\<rparr>" and fs = sample_fs
        and parse = sample_parse and lg = "\<lparr>FatalfExits = True\<rparr>"]
      FileFindMigrations_needs_Dir [where f = "\<lparr>Dir = ''m/''\<rparr>" and fs = sample_fs
        and parse = sample_parse and lg = "\<lparr>FatalfExits = True\<rparr>"]
    by blast
qed

section \<open>What the constructor establishes\<close>

text \<open>
  The registries the engine works on come from the constructor. With a source of the
  package, the registry it builds files every Migration under its own id, and every
  Status in it is Inactive or Active.
\<close>

lemma two_statuses_update:
  "two_statuses reg \<Longrightarrow> Status mg = Inactive \<or> Status mg = Active \<Longrightarrow>
   two_statuses (AList.update k mg reg)"
  by (induction reg) (auto simp: two_statuses_def)

lemma two_statuses_lookup:
  "two_statuses reg \<Longrightarrow> map_of reg k = Some mg \<Longrightarrow> Status mg = Inactive \<or> Status mg = Active"
  by (auto simp: two_statuses_def list_all_iff dest: map_of_SomeD)

lemma pair_loop_two_statuses:
  "two_statuses ms \<Longrightarrow> two_statuses (pair_loop parse nm matches ms)"
proof (induction matches arbitrary: ms)
  case Nil
  then show ?case by simp
next
  case (Cons match matches)
  show ?case
  proof (cases "parse (nm match)")
    case (Inl err)
    then show ?thesis using Cons by simp
  next
    case (Inr t)
    obtain num mType name where t: "t = (num, mType, name)"
      by (cases t) auto
    show ?thesis
    proof (cases "map_of ms num")
      case None
      then show ?thesis
        using Inr t Cons.prems
        by (auto simp: Let_def intro!: Cons.IH two_statuses_update)
    next
      case (Some found)
      then have "Status found = Inactive \<or> Status found = Active"
        using Cons.prems by (rule two_statuses_lookup [rotated])
      then show ?thesis
        using Inr t Some Cons.prems
        by (auto simp: Let_def intro!: Cons.IH two_statuses_update)
    qed
  qed
qed

lemma FindMigrations_registry:
  assumes "FindMigrations fs parse src lg = Returned (ms, e)"
    and "\<forall>r. src \<noteq> OtherSource r"
  shows "keyed_by_id ms \<and> two_statuses ms"
proof -
  have empty: "keyed_by_id []" "two_statuses []"
    by (simp_all add: keyed_by_id_def two_statuses_def)
  have from_file: "keyed_by_id ms \<and> two_statuses ms"
    if "FileFindMigrations fs parse f lg = Returned (ms, e)" for f
    using that pair_loop_keyed [OF empty(1), of parse Base]
      pair_loop_two_statuses [OF empty(2), of parse Base]
    by (auto simp: FileFindMigrations_def Let_def split: outcome.splits prod.splits if_splits)
  have asset: "keyed_by_id ms \<and> two_statuses ms"
    if "AssetFindMigrations parse a lg = Returned (ms, e)" for a
    using that pair_loop_keyed [OF empty(1), of parse "\<lambda>match. match"]
      pair_loop_two_statuses [OF empty(2), of parse "\<lambda>match. match"] empty
    by (auto simp: AssetFindMigrations_def Let_def split: sum.splits)
  show ?thesis
    using assms from_file asset
    by (cases src) (auto simp: FindMigrations_def)
qed

lemma statuses_loop_registry:
  "statuses_loop m ks db = (e, m', db') \<Longrightarrow>
   keyed_by_id (migrations m) \<Longrightarrow> two_statuses (migrations m) \<Longrightarrow>
   keyed_by_id (migrations m') \<and> two_statuses (migrations m')"
proof (induction ks arbitrary: m db)
  case Nil
  then show ?case by simp
next
  case (Cons k ks)
  show ?case
  proof (cases "map_of (migrations m) k")
    case None
    then show ?thesis
      using Cons.prems Cons.IH [of m db] by simp
  next
    case (Some mg)
    then have idk: "Id mg = k"
      using Cons.prems(2) by (rule keyed_by_id_lookup [rotated])
    obtain r db1 where q: "QueryRowScan (DB m) (GetMigrationSql (dbAdapter m)) [IdArg (Id mg)] db =
        (r, db1)"
      by (cases "QueryRowScan (DB m) (GetMigrationSql (dbAdapter m)) [IdArg (Id mg)] db")
    show ?thesis
    proof (cases r)
      case None
      let ?m1 = "store k (mg\<lparr>Status := Active\<rparr>) m"
      have rest: "statuses_loop ?m1 ks db1 = (e, m', db')"
        using Cons.prems(1) Some q None by simp
      have "keyed_by_id (migrations ?m1)" and "two_statuses (migrations ?m1)"
        using Cons.prems(2,3) idk
        by (simp_all add: store_def keyed_by_id_update two_statuses_update)
      with rest show ?thesis
        by (rule Cons.IH)
    next
      case (Some err)
      show ?thesis
      proof (cases "err = ErrNoRows")
        case True
        then have "statuses_loop m ks db1 = (e, m', db')"
          using Cons.prems(1) \<open>map_of (migrations m) k = Some mg\<close> q Some by simp
        then show ?thesis
          using Cons.prems(2,3) by (rule Cons.IH)
      next
        case False
        then have "m' = m"
          using Cons.prems(1) \<open>map_of (migrations m) k = Some mg\<close> q Some by simp
        then show ?thesis
          using Cons.prems(2,3) by simp
      qed
    qed
  qed
qed

lemma NewMigratorWithLogger_registry:
  assumes "NewMigratorWithLogger fs parse d adapter src lg db = (Returned (Some m, e), db')"
    and "\<forall>r. src \<noteq> OtherSource r"
  shows "keyed_by_id (migrations m) \<and> two_statuses (migrations m)"
proof -
  let ?m0 = "\<lparr>DB = d, dbAdapter = adapter, migrations = [], logger = lg, Source = src\<rparr>"
  from assms(1) obtain found db2 e2 where
    found: "FindMigrations fs parse src lg = Returned (found, None)" and
    loop: "getMigrationStatuses (?m0\<lparr>migrations := found\<rparr>) db2 = (e2, m, db')"
    by (auto simp: NewMigratorWithLogger_def Let_def
        split: prod.splits option.splits outcome.splits if_splits)
  from FindMigrations_registry [OF found assms(2)]
  have "keyed_by_id (migrations (?m0\<lparr>migrations := found\<rparr>))"
    and "two_statuses (migrations (?m0\<lparr>migrations := found\<rparr>))"
    by simp_all
  with loop [unfolded getMigrationStatuses_def] show ?thesis
    by (rule statuses_loop_registry)
qed

section \<open>Properties of applying one migration\<close>

lemma rollback_tx_fails: "rollback_tx d err db = (e, db') \<Longrightarrow> e \<noteq> None"
  by (auto simp: rollback_tx_def split: prod.splits option.splits)

lemma exec_commands_append:
  "exec_commands d (xs @ ys) db =
     (case exec_commands d xs db of
        (None, db') \<Rightarrow> exec_commands d ys db'
      | (Some e, db') \<Rightarrow> (Some e, db'))"
proof (induction xs arbitrary: db)
  case Nil
  show ?case by simp
next
  case (Cons x xs)
  show ?case
  proof (cases "TxExec d x [] db")
    case (Pair r db')
    show ?thesis
    proof (cases r)
      case (Inl err)
      obtain e db'' where rb: "rollback_tx d err db' = (e, db'')"
        by (cases "rollback_tx d err db'")
      with rollback_tx_fails [OF rb] show ?thesis
        using Pair Inl by auto
    next
      case (Inr res)
      show ?thesis
      proof (cases res)
        case None
        then show ?thesis using Pair Inr Cons.IH by simp
      next
        case (Some result)
        show ?thesis
        proof (cases result)
          case (Rows n)
          then show ?thesis using Pair Inr Some Cons.IH by simp
        next
          case (RowsError err)
          obtain e db'' where rb: "rollback_tx d err db' = (e, db'')"
            by (cases "rollback_tx d err db'")
          with rollback_tx_fails [OF rb] show ?thesis
            using Pair Inr Some RowsError by auto
        qed
      qed
    qed
  qed
qed

lemma ApplyMigration_failure_keeps:
  "ApplyMigration m fs mg mType db = (Some err, mg', db') \<Longrightarrow> mg' = mg"
  by (auto simp: ApplyMigration_def Let_def split: if_splits prod.splits option.splits)

lemma ApplyMigration_success:
  assumes "ApplyMigration m fs mg mType db = (None, mg', db')"
  shows "(mType = upMigration \<or> mType = downMigration)
    \<and> mg' = mg\<lparr>Status := (if mType = upMigration then Active else Inactive)\<rparr>
    \<and> (\<exists>db3. run_transaction m fs mg mType
                (if mType = upMigration then UpPath mg else DownPath mg) db = (None, db3)
              \<and> TxCommit (DB m) db3 = (None, db'))"
  using assms
  by (auto simp: ApplyMigration_def Let_def split: if_splits prod.splits option.splits)

text \<open>
  C3. In \<open>ApplyMigration\<close> the Migration changes only when the commit succeeds: a call
  that returns an error leaves the Migration as it was; a call that returns no error
  has run the transaction to the commit, the commit has succeeded, and the Status is
  Active for direction up and Inactive for direction down, nothing else being changed;
  and when the commit fails, its error is what the call returns, with the Migration
  unchanged.
\<close>

theorem ApplyMigration_status_follows_commit:
  "ApplyMigration m fs mg mType db = (e, mg', db') \<Longrightarrow>
     (e \<noteq> None \<longrightarrow> mg' = mg)
   \<and> (e = None \<longrightarrow>
        (mType = upMigration \<or> mType = downMigration)
        \<and> mg' = mg\<lparr>Status := (if mType = upMigration then Active else Inactive)\<rparr>
        \<and> (\<exists>db3. run_transaction m fs mg mType
                    (if mType = upMigration then UpPath mg else DownPath mg) db = (None, db3)
                  \<and> TxCommit (DB m) db3 = (None, db')))
   \<and> (\<forall>db3 err db4.
        (mType = upMigration \<or> mType = downMigration)
        \<and> run_transaction m fs mg mType
             (if mType = upMigration then UpPath mg else DownPath mg) db = (None, db3)
        \<and> TxCommit (DB m) db3 = (Some err, db4)
        \<longrightarrow> e = Some err \<and> mg' = mg \<and> db' = db4)"
proof (intro conjI impI allI)
  assume r: "ApplyMigration m fs mg mType db = (e, mg', db')" and "e \<noteq> None"
  then show "mg' = mg"
    using ApplyMigration_failure_keeps [of m fs mg mType db _ mg' db'] by auto
next
  assume r: "ApplyMigration m fs mg mType db = (e, mg', db')" and "e = None"
  then have ok: "ApplyMigration m fs mg mType db = (None, mg', db')"
    by simp
  from ApplyMigration_success [OF ok]
  show "mType = upMigration \<or> mType = downMigration"
    and "mg' = mg\<lparr>Status := (if mType = upMigration then Active else Inactive)\<rparr>"
    and "\<exists>db3. run_transaction m fs mg mType
                    (if mType = upMigration then UpPath mg else DownPath mg) db = (None, db3)
                  \<and> TxCommit (DB m) db3 = (None, db')"
    by blast+
next
  fix db3 err db4
  assume r: "ApplyMigration m fs mg mType db = (e, mg', db')"
    and c: "(mType = upMigration \<or> mType = downMigration)
        \<and> run_transaction m fs mg mType
             (if mType = upMigration then UpPath mg else DownPath mg) db = (None, db3)
        \<and> TxCommit (DB m) db3 = (Some err, db4)"
  from c have "ApplyMigration m fs mg mType db = (Some err, mg, db4)"
    by (auto simp: ApplyMigration_def Let_def)
  with r show "e = Some err" and "mg' = mg" and "db' = db4"
    by simp_all
qed

theorem ApplyMigration_status_follows_commit_witness:
  "ApplyMigration (sample_migrator [] []) sample_fs (sample_migration Inactive) upMigration [] =
     (None, sample_migration Active, [''begin'', ''s1'', ''s2'', ''ins'', ''commit''])
   \<and> sample_migration Active = (sample_migration Inactive)\<lparr>Status := Active\<rparr>
   \<and> ApplyMigration (sample_migrator [''commit''] []) sample_fs (sample_migration Inactive)
         upMigration [] =
       (Some (OtherError ''commit''), sample_migration Inactive,
        [''begin'', ''s1'', ''s2'', ''ins'', ''commit''])"
proof -
  have committed:
    "ApplyMigration (sample_migrator [] []) sample_fs (sample_migration Inactive) upMigration [] =
       (None, sample_migration Active, [''begin'', ''s1'', ''s2'', ''ins'', ''commit''])"
    by (simp add: sample_defs)
  have failed:
    "ApplyMigration (sample_migrator [''commit''] []) sample_fs (sample_migration Inactive)
         upMigration [] =
       (Some (OtherError ''commit''), sample_migration Inactive,
        [''begin'', ''s1'', ''s2'', ''ins'', ''commit''])"
    by (simp add: sample_defs)
  from ApplyMigration_status_follows_commit [OF committed]
  have "sample_migration Active = (sample_migration Inactive)\<lparr>Status := Active\<rparr>"
    by simp
  with committed failed show ?thesis
    by simp
qed

lemma run_transaction_statement_failure:
  assumes dir: "mType = upMigration \<or> mType = downMigration"
    and script: "read_script fs (Source m)
                   (if mType = upMigration then UpPath mg else DownPath mg) = Inr script"
    and began: "Begin (DB m) db = (None, db1)"
    and k: "k < length (GetMigrationCommands (dbAdapter m) script)"
    and before: "exec_commands (DB m) (take k (GetMigrationCommands (dbAdapter m) script)) db1 =
                   (None, db2)"
    and fails: "TxExec (DB m) (GetMigrationCommands (dbAdapter m) script ! k) [] db2 = (Inl err, db3)"
  shows "run_transaction m fs mg mType
           (if mType = upMigration then UpPath mg else DownPath mg) db =
         rollback_tx (DB m) err db3"
proof -
  let ?cs = "GetMigrationCommands (dbAdapter m) script"
  have split: "?cs = take k ?cs @ (?cs ! k) # drop (Suc k) ?cs"
    using k by (rule id_take_nth_drop)
  have "exec_commands (DB m) (take k ?cs @ (?cs ! k) # drop (Suc k) ?cs) db1 =
          rollback_tx (DB m) err db3"
    by (simp add: exec_commands_append before fails)
  with split have loop: "exec_commands (DB m) ?cs db1 = rollback_tx (DB m) err db3"
    by simp
  obtain e db4 where rb: "rollback_tx (DB m) err db3 = (e, db4)"
    by (cases "rollback_tx (DB m) err db3")
  from rollback_tx_fails [OF rb] obtain e' where "e = Some e'"
    by auto
  with rb loop show ?thesis
    by (simp add: run_transaction_def script began)
qed

text \<open>
  C4. In \<open>ApplyMigration\<close>, when the commands before the \<open>k\<close>-th have gone through and
  the \<open>k\<close>-th fails to execute, the open transaction is rolled back in the state the
  failure left, and the call returns the statement's error when the rollback succeeds
  and the rollback's error when the rollback fails; in both cases the Migration is
  unchanged.
\<close>

theorem ApplyMigration_statement_failure:
  assumes "mType = upMigration \<or> mType = downMigration"
    and "read_script fs (Source m)
           (if mType = upMigration then UpPath mg else DownPath mg) = Inr script"
    and "Begin (DB m) db = (None, db1)"
    and "k < length (GetMigrationCommands (dbAdapter m) script)"
    and "exec_commands (DB m) (take k (GetMigrationCommands (dbAdapter m) script)) db1 =
           (None, db2)"
    and "TxExec (DB m) (GetMigrationCommands (dbAdapter m) script ! k) [] db2 = (Inl err, db3)"
  shows "ApplyMigration m fs mg mType db =
           (case TxRollback (DB m) db3 of
              (None, db4) \<Rightarrow> (Some err, mg, db4)
            | (Some rollbackErr, db4) \<Rightarrow> (Some rollbackErr, mg, db4))"
proof -
  have "run_transaction m fs mg mType
           (if mType = upMigration then UpPath mg else DownPath mg) db =
         rollback_tx (DB m) err db3"
    using assms by (rule run_transaction_statement_failure)
  then show ?thesis
    using assms(1)
    by (auto simp: ApplyMigration_def Let_def rollback_tx_def split: prod.splits option.splits)
qed

theorem ApplyMigration_statement_failure_witness:
  "ApplyMigration (sample_migrator [''s2''] []) sample_fs (sample_migration Inactive)
       upMigration [] =
     (Some (OtherError ''s2''), sample_migration Inactive,
      [''begin'', ''s1'', ''s2'', ''rollback''])
   \<and> ApplyMigration (sample_migrator [''s2'', ''rollback''] []) sample_fs
         (sample_migration Inactive) upMigration [] =
       (Some (OtherError ''rollback''), sample_migration Inactive,
        [''begin'', ''s1'', ''s2'', ''rollback''])"
proof -
  have one: "ApplyMigration (sample_migrator [''s2''] []) sample_fs (sample_migration Inactive)
       upMigration [] =
     (case TxRollback (DB (sample_migrator [''s2''] [])) [''begin'', ''s1'', ''s2''] of
        (None, db4) \<Rightarrow> (Some (OtherError ''s2''), sample_migration Inactive, db4)
      | (Some rollbackErr, db4) \<Rightarrow> (Some rollbackErr, sample_migration Inactive, db4))"
    by (rule ApplyMigration_statement_failure [where k = 1 and script = "''s1''"
          and ?db1.0 = "[''begin'']" and ?db2.0 = "[''begin'', ''s1'']"])
      (simp_all add: sample_defs)
  have two: "ApplyMigration (sample_migrator [''s2'', ''rollback''] []) sample_fs
         (sample_migration Inactive) upMigration [] =
     (case TxRollback (DB (sample_migrator [''s2'', ''rollback''] [])) [''begin'', ''s1'', ''s2''] of
        (None, db4) \<Rightarrow> (Some (OtherError ''s2''), sample_migration Inactive, db4)
      | (Some rollbackErr, db4) \<Rightarrow> (Some rollbackErr, sample_migration Inactive, db4))"
    by (rule ApplyMigration_statement_failure [where k = 1 and script = "''s1''"
          and ?db1.0 = "[''begin'']" and ?db2.0 = "[''begin'', ''s1'']"])
      (simp_all add: sample_defs)
  show ?thesis
    unfolding one two by (simp add: sample_migrator_def scripted_db_def)
qed

section \<open>Properties of Migrate\<close>

lemma store_lookup: "map_of (migrations (store k mg m)) = (map_of (migrations m))(k \<mapsto> mg)"
  by (simp add: store_def update_conv')

lemma migrate_loop_success:
  "migrate_loop m fs ms db = (None, m', db') \<Longrightarrow>
     (\<forall>k. k \<notin> fst ` set ms \<longrightarrow> map_of (migrations m') k = map_of (migrations m) k)
   \<and> (\<forall>k \<in> fst ` set ms. \<exists>mg. map_of (migrations m') k = Some mg \<and> Status mg = Active)"
proof (induction ms arbitrary: m db)
  case Nil
  then show ?case by simp
next
  case (Cons p ms)
  obtain k0 mg0 where p: "p = (k0, mg0)"
    by (cases p)
  obtain e mg1 db1 where ap: "ApplyMigration m fs mg0 upMigration db = (e, mg1, db1)"
    by (cases "ApplyMigration m fs mg0 upMigration db")
  with Cons.prems p have e: "e = None"
    and rest: "migrate_loop (store k0 mg1 m) fs ms db1 = (None, m', db')"
    by (auto split: option.splits)
  from ApplyMigration_success [OF ap [unfolded e]] have active: "Status mg1 = Active"
    by simp
  note IH = Cons.IH [OF rest]
  show ?case
  proof (intro conjI allI impI ballI)
    fix k assume "k \<notin> fst ` set (p # ms)"
    then have "k \<noteq> k0" and "k \<notin> fst ` set ms"
      using p by auto
    with IH show "map_of (migrations m') k = map_of (migrations m) k"
      by (simp add: store_lookup)
  next
    fix k assume k: "k \<in> fst ` set (p # ms)"
    show "\<exists>mg. map_of (migrations m') k = Some mg \<and> Status mg = Active"
    proof (cases "k \<in> fst ` set ms")
      case True
      with IH show ?thesis by blast
    next
      case False
      with k p have "k = k0" by auto
      moreover from IH False have "map_of (migrations m') k = map_of (migrations (store k0 mg1 m)) k"
        by blast
      ultimately show ?thesis
        using active by (simp add: store_lookup)
    qed
  qed
qed

lemma Migrations_keys:
  "fst ` set (Migrations reg status) =
     {k. \<exists>mg. map_of reg k = Some mg \<and> (status = -1 \<or> Status mg = status)}"
  unfolding Migrations_set by force

lemma Migrate_success_lookup:
  assumes "Migrate m fs db = (None, m', db')" and "map_of (migrations m') k = Some mg"
  shows "Status mg = Active \<or> (map_of (migrations m) k = Some mg \<and> Status mg \<noteq> Inactive)"
proof -
  let ?ms = "Migrations (migrations m) Inactive"
  note loop = migrate_loop_success [OF assms(1) [unfolded Migrate_def]]
  show ?thesis
  proof (cases "k \<in> fst ` set ?ms")
    case True
    with loop assms(2) show ?thesis by force
  next
    case False
    with loop assms(2) have same: "map_of (migrations m) k = Some mg"
      by simp
    with False have "Status mg \<noteq> Inactive"
      unfolding Migrations_keys by (auto simp: Inactive_def)
    with same show ?thesis by simp
  qed
qed

lemma Migrate_leaves_no_Inactive:
  assumes "Migrate m fs db = (None, m', db')"
  shows "Migrations (migrations m') Inactive = []"
proof -
  have "Status mg \<noteq> Inactive" if "map_of (migrations m') k = Some mg" for k mg
    using Migrate_success_lookup [OF assms that] by (auto simp: Active_def Inactive_def)
  then have "set (Migrations (migrations m') Inactive) = {}"
    unfolding Migrations_set by (auto simp: Inactive_def)
  then show ?thesis by simp
qed

text \<open>
  C7. \<open>Migrate\<close> is idempotent: after a call that returned no error the list of Inactive
  migrations is empty, so a second call, in whatever state the database is, returns no
  error and hands back the migrator and the database state untouched: it makes no call
  to the database. When every Status of the registry was Inactive or Active before the
  first call, every migration of the registry is Active after it.
\<close>

theorem Migrate_idempotent:
  "Migrate m fs db = (None, m', db') \<Longrightarrow>
     Migrations (migrations m') Inactive = []
   \<and> (\<forall>db2. Migrate m' fs db2 = (None, m', db2))
   \<and> ((\<forall>k mg. map_of (migrations m) k = Some mg \<longrightarrow> Status mg = Inactive \<or> Status mg = Active)
        \<longrightarrow> (\<forall>k mg. map_of (migrations m') k = Some mg \<longrightarrow> Status mg = Active))"
proof (intro conjI allI impI)
  assume first: "Migrate m fs db = (None, m', db')"
  show none: "Migrations (migrations m') Inactive = []"
    using first by (rule Migrate_leaves_no_Inactive)
  show "Migrate m' fs db2 = (None, m', db2)" for db2
    by (simp add: Migrate_def none)
  fix k mg
  assume "\<forall>k mg. map_of (migrations m) k = Some mg \<longrightarrow> Status mg = Inactive \<or> Status mg = Active"
    and "map_of (migrations m') k = Some mg"
  then show "Status mg = Active"
    using Migrate_success_lookup [OF first, of k mg] by blast
qed

theorem Migrate_idempotent_witness:
  "Migrate (sample_migrator [] [(1, sample_migration Inactive)]) sample_fs [] =
     (None, sample_migrator [] [(1, sample_migration Active)],
      [''begin'', ''s1'', ''s2'', ''ins'', ''commit''])
   \<and> Migrations (migrations (sample_migrator [] [(1, sample_migration Active)])) Inactive = []
   \<and> Migrate (sample_migrator [] [(1, sample_migration Active)]) sample_fs
         [''begin'', ''s1'', ''s2'', ''ins'', ''commit''] =
       (None, sample_migrator [] [(1, sample_migration Active)],
        [''begin'', ''s1'', ''s2'', ''ins'', ''commit''])"
proof -
  have first: "Migrate (sample_migrator [] [(1, sample_migration Inactive)]) sample_fs [] =
     (None, sample_migrator [] [(1, sample_migration Active)],
      [''begin'', ''s1'', ''s2'', ''ins'', ''commit''])"
    by (simp add: Migrate_def Migrations_def range_keys_def sort_uint64slice_def sample_defs)
  from Migrate_idempotent [OF first] show ?thesis
    using first by simp
qed

section \<open>Properties of the bootstrap\<close>

lemma CreateMigrationsTable_no_error:
  "CreateMigrationsTable m db \<noteq> (Returned (Some e), db')"
  by (auto simp: CreateMigrationsTable_def split: prod.splits option.splits)

text \<open>
  C2, as stated, at a concrete input: the probe finds no row and the creation statement
  fails. With a logger whose \<open>Fatalf\<close> exits, construction ends in the exit of the
  process, not in an error returned to the caller; with a logger whose \<open>Fatalf\<close>
  comes back, construction goes on as if the table had been created and returns a
  Migrator and no error.
\<close>

theorem NewMigrator_create_failure_counterexample:
  "NewMigratorWithLogger sample_fs sample_parse (scripted_db [''probe'', ''create''])
       sample_adapter (FileSource \<lparr>Dir = ''m/''\<rparr>) \<lparr>FatalfExits = True\<rparr> [] =
     (Exited, [''probe'', ''create''])
   \<and> NewMigratorWithLogger sample_fs sample_parse (scripted_db [''probe'', ''create''])
         sample_adapter (FileSource \<lparr>Dir = ''m/''\<rparr>) \<lparr>FatalfExits = False\<rparr> [] =
       (Returned
          (Some \<lparr>DB = scripted_db [''probe'', ''create''], dbAdapter = sample_adapter,
                 migrations = [(1, sample_migration Active)],
                 logger = \<lparr>FatalfExits = False\<rparr>, Source = FileSource \<lparr>Dir = ''m/''\<rparr>\<rparr>,
           None),
        [''probe'', ''create'', ''get''])"
  by (simp add: NewMigratorWithLogger_def MigrationTableExists_def CreateMigrationsTable_def
      FindMigrations_def FileFindMigrations_def index_byte_def Base_def sample_parse_def
      valid_def getMigrationStatuses_def range_keys_def Let_def
      sample_defs)

text \<open>
  C2, amended. During engine construction, when the log-table probe reports the table
  absent and the table-creation statement fails, the engine calls the logger's
  \<open>Fatalf\<close>; with a logger whose \<open>Fatalf\<close> ends the process, as the standard logger's
  does, construction ends there, in the state the failed statement left: the process
  exits, and neither a Migrator nor an error value is returned to the caller.
  \<open>CreateMigrationsTable\<close> itself never returns an error.
\<close>

theorem NewMigrator_create_failure_exits:
  assumes "QueryRowScan d (SelectMigrationTableSql adapter) [StrArg migrationTableName]
             (db :: 'db) = (Some ErrNoRows, db1)"
    and "Exec d (CreateMigrationTableSql adapter) [] db1 = (Some err, db2)"
    and "FatalfExits lg"
  shows "NewMigratorWithLogger fs parse d adapter ms lg db = (Exited, db2)
         \<and> CreateMigrationsTable
             \<lparr>DB = d, dbAdapter = adapter, migrations = [], logger = lg, Source = ms\<rparr> db1 =
           (Exited, db2)
         \<and> (\<forall>m0 s e s'. CreateMigrationsTable (m0 :: 'db Migrator) s \<noteq> (Returned (Some e), s'))"
proof (intro conjI allI)
  show "NewMigratorWithLogger fs parse d adapter ms lg db = (Exited, db2)"
    using assms
    by (simp add: NewMigratorWithLogger_def MigrationTableExists_def CreateMigrationsTable_def)
  show "CreateMigrationsTable
          \<lparr>DB = d, dbAdapter = adapter, migrations = [], logger = lg, Source = ms\<rparr> db1 =
        (Exited, db2)"
    using assms by (simp add: CreateMigrationsTable_def)
  show "CreateMigrationsTable m0 s \<noteq> (Returned (Some e), s')" for m0 :: "'db Migrator" and s e s'
    by (rule CreateMigrationsTable_no_error)
qed

theorem NewMigrator_create_failure_exits_witness:
  "QueryRowScan (scripted_db [''probe'', ''create'']) (SelectMigrationTableSql sample_adapter)
       [StrArg migrationTableName] [] = (Some ErrNoRows, [''probe''])
   \<and> Exec (scripted_db [''probe'', ''create'']) (CreateMigrationTableSql sample_adapter) []
         [''probe''] = (Some (OtherError ''create''), [''probe'', ''create''])
   \<and> FatalfExits \<lparr>FatalfExits = True\<rparr>
   \<and> NewMigratorWithLogger sample_fs sample_parse (scripted_db [''probe'', ''create''])
         sample_adapter (AssetSource sample_asset) \<lparr>FatalfExits = True\<rparr> [] =
       (Exited, [''probe'', ''create''])"
proof -
  have probe: "QueryRowScan (scripted_db [''probe'', ''create''])
       (SelectMigrationTableSql sample_adapter) [StrArg migrationTableName] [] =
       (Some ErrNoRows, [''probe''])"
    by (simp add: scripted_db_def sample_adapter_def)
  have create: "Exec (scripted_db [''probe'', ''create'']) (CreateMigrationTableSql sample_adapter)
       [] [''probe''] = (Some (OtherError ''create''), [''probe'', ''create''])"
    by (simp add: scripted_db_def sample_adapter_def)
  have exits: "FatalfExits \<lparr>FatalfExits = True\<rparr>"
    by simp
  from NewMigrator_create_failure_exits [OF probe create exits]
  show ?thesis
    using probe create by simp
qed

section \<open>Rollback of the last n active migrations\<close>

text \<open>
  C8. For every migrator whose list of Active migrations is empty, \<open>RollbackN(n)\<close> is a
  no-op for every \<open>n\<close>: it returns no error and leaves the migrator and the database as
  they were.
\<close>

theorem RollbackN_no_active:
  "Migrations (migrations m) Active = [] \<Longrightarrow> RollbackN m fs n db = (Returned None, m, db)"
  by (simp add: RollbackN_def)

theorem RollbackN_no_active_witness:
  "Migrations (migrations (sample_migrator [] [])) Active = []
   \<and> RollbackN (sample_migrator [] []) sample_fs 3 [] = (Returned None, sample_migrator [] [], [])"
proof -
  have h: "Migrations (migrations (sample_migrator [] [])) Active = []"
    by (simp add: sample_migrator_def Migrations_def range_keys_def sort_uint64slice_def)
  show ?thesis
    using h RollbackN_no_active [OF h, of sample_fs 3 "[]"] by simp
qed

text \<open>
  C9. For every migrator whose list of Active migrations is non-empty, \<open>RollbackN(0)\<close>
  is a no-op: the loop's stop index equals its start index, so nothing is reverted, the
  migrator and the database are as they were, and no error is returned.
\<close>

theorem RollbackN_zero:
  "Migrations (migrations m) Active \<noteq> [] \<Longrightarrow> RollbackN m fs 0 db = (Returned None, m, db)"
  by (simp add: RollbackN_def Let_def rollback_loop.simps)

theorem RollbackN_zero_witness:
  "Migrations (migrations (sample_migrator [] [(1, sample_migration Active)])) Active \<noteq> []
   \<and> RollbackN (sample_migrator [] [(1, sample_migration Active)]) sample_fs 0 [] =
       (Returned None, sample_migrator [] [(1, sample_migration Active)], [])"
proof -
  have h: "Migrations (migrations (sample_migrator [] [(1, sample_migration Active)])) Active \<noteq> []"
    by (simp add: sample_migrator_def sample_migration_def Migrations_def range_keys_def
        sort_uint64slice_def)
  show ?thesis
    using h RollbackN_zero [OF h, of sample_fs "[]"] by simp
qed

text \<open>
  C1 at a failing input: one Active migration and \<open>n = 2\<close>. The loop reverts the
  migration (begin, the two commands, the log delete, commit), steps to index \<open>-1\<close>,
  which is not the stop index \<open>-2\<close>, and indexes the slice there: the call panics
  instead of returning no error.
\<close>

theorem RollbackN_overlarge_panics:
  "RollbackN (sample_migrator [] [(1, sample_migration Active)]) sample_fs 2 [] =
     (Panicked (IndexOutOfRange (-1) 1),
      sample_migrator [] [(1, sample_migration Inactive)],
      [''begin'', ''s1'', ''s2'', ''del'', ''commit''])"
  by (simp add: RollbackN_def Let_def rollback_loop.simps Migrations_def range_keys_def
      sort_uint64slice_def sample_migrator_def sample_migration_def ApplyMigration_def
      run_transaction_def read_script_def sample_fs_def sample_adapter_def scripted_db_def
      store_def upMigration_def downMigration_def Active_def Inactive_def)

text \<open>
  The same holds for every migrator and every \<open>n\<close> above the number of Active
  migrations: the stop index is below \<open>-1\<close>, so the loop either ends on the error of a
  revert or goes on to index \<open>-1\<close> and panics; it never returns no error.
\<close>

lemma sint_pred:
  fixes i :: "64 word"
  assumes "0 \<le> sint i"
  shows "sint (i - 1) = sint i - 1"
proof -
  have "sint i < 2 ^ 63" using sint_lt [of i] by simp
  with assms have "signed_take_bit 63 (sint i - 1) = sint i - 1"
    by (intro signed_take_bit_int_eq_self) auto
  then show ?thesis
    by (simp add: sint_word_ariths)
qed

lemma rollback_loop_overshoot:
  "sint last_migration < -1 \<Longrightarrow> -1 \<le> sint i \<Longrightarrow> sint i < int (length ms) \<Longrightarrow>
   fst (rollback_loop m fs ms last_migration i db) \<noteq> Returned None"
proof (induction m fs ms last_migration i db rule: rollback_loop.induct)
  case (1 m fs ms last_migration i db)
  from "1.prems" have ne: "i \<noteq> last_migration"
    by auto
  show ?case
  proof (cases "0 \<le> sint i")
    case False
    with ne show ?thesis
      by (subst rollback_loop.simps) simp
  next
    case True
    with "1.prems" have inb: "0 \<le> sint i \<and> sint i < int (length ms)"
      by simp
    obtain e mg db1 where ap:
      "ApplyMigration m fs (snd (ms ! nat (sint i))) downMigration db = (e, mg, db1)"
      by (cases "ApplyMigration m fs (snd (ms ! nat (sint i))) downMigration db")
    show ?thesis
    proof (cases e)
      case (Some err)
      with ne inb ap show ?thesis
        by (subst rollback_loop.simps) simp
    next
      case None
      have step: "-1 \<le> sint (i - 1)" "sint (i - 1) < int (length ms)"
        using inb by (simp_all add: sint_pred)
      have "fst (rollback_loop (store (fst (ms ! nat (sint i))) mg m) fs ms last_migration
                   (i - 1) db1) \<noteq> Returned None"
        using ne inb ap [symmetric] None "1.prems"(1) step
        by (intro "1.IH") auto
      with ne inb ap None show ?thesis
        by (subst rollback_loop.simps) simp
    qed
  qed
qed

lemma RollbackN_overlarge_never_nil:
  assumes active: "Migrations (migrations m) Active \<noteq> []"
    and len: "length (Migrations (migrations m) Active) < 2 ^ 63"
    and n: "int (length (Migrations (migrations m) Active)) < sint n"
  shows "fst (RollbackN m fs n db) \<noteq> Returned None"
proof -
  let ?ms = "Migrations (migrations m) Active"
  let ?len = "of_nat (length ?ms) :: 64 word"
  have pos: "0 < length ?ms"
    using active by simp
  have "?len = word_of_int (int (length ?ms))" by simp
  then have "sint ?len = signed_take_bit 63 (int (length ?ms))"
    by (simp only: sint_sbintrunc') simp
  also have "\<dots> = int (length ?ms)"
    using len by (intro signed_take_bit_int_eq_self) auto
  finally have slen: "sint ?len = int (length ?ms)" .
  have nlt: "sint n < 2 ^ 63" using sint_lt [of n] by simp
  have "sint (?len - 1) = signed_take_bit 63 (sint ?len - 1)"
    by (simp add: sint_word_ariths)
  also have "\<dots> = int (length ?ms) - 1"
    unfolding slen using len pos by (intro signed_take_bit_int_eq_self) auto
  finally have start: "sint (?len - 1) = int (length ?ms) - 1" .
  have "sint (?len - 1 - n) = signed_take_bit 63 (sint (?len - 1) - sint n)"
    by (simp add: sint_word_ariths)
  also have "\<dots> = int (length ?ms) - 1 - sint n"
    unfolding start using len pos n nlt by (intro signed_take_bit_int_eq_self) auto
  finally have stop: "sint (?len - 1 - n) < -1"
    using n by simp
  have "fst (rollback_loop m fs ?ms (?len - 1 - n) (?len - 1) db) \<noteq> Returned None"
    using stop start pos by (intro rollback_loop_overshoot) auto
  then show ?thesis
    using active by (simp add: RollbackN_def Let_def)
qed

text \<open>
  \<open>RollbackAll\<close> passes the number of Active migrations itself: on the same migrator it
  reverts the migration and returns no error, the stop index being \<open>-1\<close>.
\<close>

lemma RollbackAll_sample:
  "RollbackAll (sample_migrator [] [(1, sample_migration Active)]) sample_fs [] =
     (Returned None,
      sample_migrator [] [(1, sample_migration Inactive)],
      [''begin'', ''s1'', ''s2'', ''del'', ''commit''])"
  by (simp add: RollbackAll_def RollbackN_def Let_def rollback_loop.simps Migrations_def
      range_keys_def sort_uint64slice_def sample_defs)

end
